theory Spec2Isabelle
  imports Main "HOL-Library.Sublist"
begin

section \<open>Strings\<close>

text \<open>
  Titles and phrases are \<open>string\<close>s. \<open>lower\<close> stands for Python's \<open>str.lower()\<close>: the
  letters \<open>A\<close>..\<open>Z\<close> go to \<open>a\<close>..\<open>z\<close>, every other character is kept. (The case
  mapping of characters outside ASCII is not modelled; every phrase the program looks
  for is ASCII.)
\<close>

definition lower_char :: "char \<Rightarrow> char" where
  "lower_char c =
     (case map_of (zip ''ABCDEFGHIJKLMNOPQRSTUVWXYZ'' ''abcdefghijklmnopqrstuvwxyz'') c of
        None \<Rightarrow> c
      | Some d \<Rightarrow> d)"

definition lower :: "string \<Rightarrow> string" where
  "lower s = map lower_char s"

text \<open>Python's \<open>sub in s\<close> on strings: \<open>sub\<close> occurs in \<open>s\<close> as a contiguous run.\<close>

fun str_in :: "string \<Rightarrow> string \<Rightarrow> bool" where
  "str_in sub [] = (sub = [])"
| "str_in sub (c # cs) = (prefix sub (c # cs) \<or> str_in sub cs)"

section \<open>Configuration\<close>

definition SEARCH_TERMS :: "string list" where
  "SEARCH_TERMS =
     [''digital health'', ''telemedicine'', ''eHealth'', ''mHealth'',
      ''health IT'', ''interoperability health'', ''FHIR'', ''HL7'',
      ''AI healthcare'', ''health informatics'', ''digitale Gesundheit'', ''Telemedizin'']"

definition EXPERIENCE_LEVELS :: "string list" where
  "EXPERIENCE_LEVELS =
     [''junior'', ''entry'', ''graduate'', ''trainee'', ''praktikum'', ''werkstudent'']"

definition EXCLUDE_TERMS :: "string list" where
  "EXCLUDE_TERMS =
     [''project manager'', ''senior'', ''lead'', ''principal'', ''director'', ''head of'',
      ''developer'']"

section \<open>JobScraper: the text classifier\<close>

text \<open>\<open>any(t in s for t in terms)\<close>.\<close>

definition any_in :: "string list \<Rightarrow> string \<Rightarrow> bool" where
  "any_in terms s = list_ex (\<lambda>t. str_in t s) terms"

definition is_relevant_job :: "string \<Rightarrow> bool" where
  "is_relevant_job ttl =
     (let title_lower = lower ttl in
      if any_in EXCLUDE_TERMS title_lower then False
      else
        let is_junior = any_in EXPERIENCE_LEVELS title_lower in
        is_junior \<or> \<not> any_in [''senior'', ''lead'', ''principal''] title_lower)"

text \<open>
  The dictionary \<open>patterns\<close> of \<open>extract_languages\<close>, in insertion order, which is the
  order in which the loop visits it.
\<close>

definition patterns :: "(string \<times> string list) list" where
  "patterns =
     [(''English'', [''english'', ''englisch'']), (''German'', [''german'', ''deutsch''])]"

definition extract_languages :: "string \<Rightarrow> string list" where
  "extract_languages text =
     (let text_lower = lower text;
          languages =
            foldl (\<lambda>languages (lang, terms).
                     if any_in terms text_lower then languages @ [lang] else languages)
                  [] patterns
      in if languages \<noteq> [] then languages else [''Not specified''])"

section \<open>Data model\<close>

record JobPosting =
  title :: string
  company :: string
  location :: string
  languages :: "string list"
  link :: string
  date_posted :: string
  source :: string

type_synonym row = "string list"

datatype py_exception =
  WebDriverException | APIError | AttributeError | IndexError | ScraperError

text \<open>
  Everything outside the process, with the trace of what a run did to it: the rows of
  worksheet \<open>Vagas\<close> (\<open>None\<close> while the worksheet does not exist), the browser sessions
  that are open, and the events of the run in order.
\<close>

datatype event =
    Ev_start_driver
  | Ev_quit nat
  | Ev_close_driver
  | Ev_connect
  | Ev_append_row row
  | Ev_get_all_values
  | Ev_append_rows "row list"
  | Ev_get string string
  | Ev_critical py_exception

record world =
  vagas :: "row list option"
  sessions :: "nat set"
  launched :: nat
  events :: "event list"

text \<open>
  A listing element of a fetched page: each field is \<open>None\<close> when looking the element up
  raises (a link is a string: an element without \<open>href\<close> is not modelled).
  \<open>page src term\<close> is what the driver finds for one search term on one site,
  \<open>None\<close> when loading the page or waiting for the result list raises.
\<close>

record card =
  c_title :: "string option"
  c_company :: "string option"
  c_location :: "string option"
  c_link :: "string option"

text \<open>
  What the environment decides during one run: whether Chrome starts, whether the
  spreadsheet opens, whether reading and writing the worksheet succeed, the clock
  (\<open>now\<close> in minutes, \<open>today\<close> as a date), and the pages.
\<close>

record env =
  chrome_ok :: bool
  open_ok :: bool
  read_ok :: bool
  write_ok :: bool
  now :: string
  today :: string
  page :: "string \<Rightarrow> string \<Rightarrow> card list option"

definition log_event :: "event \<Rightarrow> world \<Rightarrow> world" where
  "log_event e w = w\<lparr>events := events w @ [e]\<rparr>"

section \<open>WebDriverManager\<close>

record WebDriverManager =
  driver :: "nat option"

text \<open>
  \<open>start_driver\<close> logs the failure and raises it again; on success the new session is
  stored in \<open>self.driver\<close> and returned.
\<close>

definition start_driver ::
  "env \<Rightarrow> WebDriverManager \<times> world \<Rightarrow> (py_exception + nat) \<times> WebDriverManager \<times> world"
where
  "start_driver orc = (\<lambda>(dm, w).
     let w1 = log_event Ev_start_driver w in
     if chrome_ok orc then
       let h = launched w1 in
       (Inr h, dm\<lparr>driver := Some h\<rparr>,
        w1\<lparr>sessions := insert h (sessions w1), launched := Suc h\<rparr>)
     else (Inl WebDriverException, dm, w1))"

text \<open>\<open>close_driver\<close> quits the stored driver if there is one; \<open>quit\<close> does not raise.\<close>

definition close_driver :: "WebDriverManager \<times> world \<Rightarrow> WebDriverManager \<times> world" where
  "close_driver = (\<lambda>(dm, w).
     let w1 = log_event Ev_close_driver w in
     case driver dm of
       None \<Rightarrow> (dm, w1)
     | Some h \<Rightarrow> (dm, log_event (Ev_quit h) (w1\<lparr>sessions := sessions w1 - {h}\<rparr>)))"

section \<open>GoogleSheetsManager\<close>

record GoogleSheetsManager =
  worksheet :: bool
  existing_links :: "string set"

text \<open>The header row (written here without the accents of the source).\<close>

definition headers :: row where
  "headers =
     [''Data Cadastro'', ''Titulo'', ''Empresa'', ''Localizacao'', ''Idiomas'', ''Link'',
      ''Data Publicacao'', ''Fonte'']"

text \<open>\<open>xs[i]\<close> for \<open>i \<ge> 0\<close>: raises \<open>IndexError\<close> out of range.\<close>

definition index :: "'a list \<Rightarrow> nat \<Rightarrow> py_exception + 'a" where
  "index xs i = (if i < length xs then Inr (xs ! i) else Inl IndexError)"

text \<open>
  The set comprehension \<open>{row[i] for row in rows if len(row) > i}\<close>, row by row.
\<close>

fun collect_links :: "nat \<Rightarrow> row list \<Rightarrow> py_exception + string set" where
  "collect_links i [] = Inr {}"
| "collect_links i (row # rows) =
     (if length row > i then
        (case index row i of
           Inl e \<Rightarrow> Inl e
         | Inr v \<Rightarrow>
             (case collect_links i rows of
                Inl e \<Rightarrow> Inl e
              | Inr S \<Rightarrow> Inr (insert v S)))
      else collect_links i rows)"

definition setup_headers ::
  "env \<Rightarrow> GoogleSheetsManager \<times> world \<Rightarrow> py_exception option \<times> GoogleSheetsManager \<times> world"
where
  "setup_headers orc = (\<lambda>(mgr, w).
     let w1 = log_event (Ev_append_row headers) w in
     case vagas w1 of
       Some rows \<Rightarrow>
         if worksheet mgr \<and> write_ok orc
         then (None, mgr, w1\<lparr>vagas := Some (rows @ [headers])\<rparr>)
         else (Some (if worksheet mgr then APIError else AttributeError), mgr, w1)
     | None \<Rightarrow> (Some (if worksheet mgr then APIError else AttributeError), mgr, w1))"

definition load_existing_links ::
  "env \<Rightarrow> GoogleSheetsManager \<times> world \<Rightarrow> py_exception option \<times> GoogleSheetsManager \<times> world"
where
  "load_existing_links orc = (\<lambda>(mgr, w).
     if \<not> worksheet mgr then (Some AttributeError, mgr, w)
     else
       let w1 = log_event Ev_get_all_values w in
       case vagas w1 of
         None \<Rightarrow> (Some APIError, mgr, w1)
       | Some all_values \<Rightarrow>
           if \<not> read_ok orc then (Some APIError, mgr, w1)
           else if length all_values > 1 then
             (let link_column_index = 5 in
              case collect_links link_column_index (drop 1 all_values) of
                Inl e \<Rightarrow> (Some e, mgr, w1)
              | Inr S \<Rightarrow> (None, mgr\<lparr>existing_links := S\<rparr>, w1))
           else (None, mgr, w1))"

definition connect ::
  "env \<Rightarrow> GoogleSheetsManager \<times> world \<Rightarrow> py_exception option \<times> GoogleSheetsManager \<times> world"
where
  "connect orc = (\<lambda>(mgr, w).
     let w1 = log_event Ev_connect w in
     if \<not> open_ok orc then (Some APIError, mgr, w1)
     else
       case vagas w1 of
         Some rows \<Rightarrow> load_existing_links orc (mgr\<lparr>worksheet := True\<rparr>, w1)
       | None \<Rightarrow>
           (case setup_headers orc (mgr\<lparr>worksheet := True\<rparr>, w1\<lparr>vagas := Some []\<rparr>) of
              (Some e, mgr2, w2) \<Rightarrow> (Some e, mgr2, w2)
            | (None, mgr2, w2) \<Rightarrow> load_existing_links orc (mgr2, w2)))"

text \<open>\<open>sep.join(xs)\<close>.\<close>

fun join :: "string \<Rightarrow> string list \<Rightarrow> string" where
  "join sep [] = []"
| "join sep [x] = x"
| "join sep (x # y # ys) = x @ sep @ join sep (y # ys)"

definition job_row :: "string \<Rightarrow> JobPosting \<Rightarrow> row" where
  "job_row stamp job =
     [stamp, title job, company job, location job, join '', '' (languages job), link job,
      date_posted job, source job]"

text \<open>
  The loop of \<open>save_jobs\<close>: the rows staged so far and the running set of known links.
\<close>

fun stage ::
  "string \<Rightarrow> JobPosting list \<Rightarrow> row list \<times> string set \<Rightarrow> row list \<times> string set"
where
  "stage stamp [] acc = acc"
| "stage stamp (job # jobs) (new_jobs, links) =
     (if link job \<notin> links
      then stage stamp jobs (new_jobs @ [job_row stamp job], insert (link job) links)
      else stage stamp jobs (new_jobs, links))"

text \<open>
  \<open>save_jobs\<close> returns nothing in the source; the model returns the count it logs
  (\<open>0\<close> for the message that nothing new was found).
\<close>

definition save_jobs ::
  "env \<Rightarrow> JobPosting list \<Rightarrow> GoogleSheetsManager \<times> world
     \<Rightarrow> (py_exception + nat) \<times> GoogleSheetsManager \<times> world"
where
  "save_jobs orc jobs = (\<lambda>(mgr, w).
     let (new_jobs, links) = stage (now orc) jobs ([], existing_links mgr);
         mgr1 = mgr\<lparr>existing_links := links\<rparr>
     in
       if new_jobs \<noteq> [] then
         (if \<not> worksheet mgr1 then (Inl AttributeError, mgr1, w)
          else
            let w1 = log_event (Ev_append_rows new_jobs) w in
            case vagas w1 of
              None \<Rightarrow> (Inl APIError, mgr1, w1)
            | Some rows \<Rightarrow>
                if write_ok orc
                then (Inr (length new_jobs), mgr1, w1\<lparr>vagas := Some (rows @ new_jobs)\<rparr>)
                else (Inl APIError, mgr1, w1))
       else (Inr 0, mgr1, w))"

section \<open>The scrapers\<close>

text \<open>
  One listing element: the title is read first and an irrelevant title skips the
  element; any lookup that raises skips it as well.
\<close>

definition parse_card :: "string \<Rightarrow> string \<Rightarrow> card \<Rightarrow> JobPosting option" where
  "parse_card day src c =
     (case c_title c of
        None \<Rightarrow> None
      | Some t \<Rightarrow>
          if \<not> is_relevant_job t then None
          else
            (case (c_company c, c_location c, c_link c) of
               (Some co, Some lo, Some li) \<Rightarrow>
                 Some \<lparr>title = t, company = co, location = lo,
                       languages = extract_languages t, link = li,
                       date_posted = day, source = src\<rparr>
             | _ \<Rightarrow> None))"

text \<open>\<open>for card in job_cards[:20]\<close>.\<close>

definition scrape_cards ::
  "string \<Rightarrow> string \<Rightarrow> card list \<Rightarrow> JobPosting list \<Rightarrow> JobPosting list"
where
  "scrape_cards day src job_cards jobs =
     foldl (\<lambda>jobs c. case parse_card day src c of None \<Rightarrow> jobs | Some j \<Rightarrow> jobs @ [j])
           jobs (take 20 job_cards)"

text \<open>The body of the loop over the search terms, for one term.\<close>

definition search_term ::
  "string \<Rightarrow> env \<Rightarrow> JobPosting list \<times> world \<Rightarrow> string \<Rightarrow> JobPosting list \<times> world"
where
  "search_term src orc = (\<lambda>(jobs, w) term.
     let w1 = log_event (Ev_get src term) w in
     case page orc src term of
       None \<Rightarrow> (jobs, w1)
     | Some job_cards \<Rightarrow> (scrape_cards (today orc) src job_cards jobs, w1))"

text \<open>
  \<open>search_jobs\<close> of the three scrapers: the same loop over \<open>SEARCH_TERMS[:3]\<close>, with the
  site's own selectors (here: the site's name). The catalogue of terms is a parameter, so
  that theorems can speak about every catalogue.
\<close>

type_synonym scraper = "env \<Rightarrow> world \<Rightarrow> (py_exception + JobPosting list) \<times> world"

definition search_jobs :: "string \<Rightarrow> string list \<Rightarrow> scraper" where
  "search_jobs src terms orc w =
     (let (jobs, w1) = foldl (search_term src orc) ([], w) (take 3 terms)
      in (Inr jobs, w1))"

definition LinkedInScraper :: scraper where
  "LinkedInScraper = search_jobs ''LinkedIn'' SEARCH_TERMS"

definition GlassdoorScraper :: scraper where
  "GlassdoorScraper = search_jobs ''Glassdoor'' SEARCH_TERMS"

definition XINGScraper :: scraper where
  "XINGScraper = search_jobs ''XING'' SEARCH_TERMS"

section \<open>JobSearchOrchestrator\<close>

record JobSearchOrchestrator =
  driver_manager :: WebDriverManager
  sheets_manager :: GoogleSheetsManager

text \<open>The loop over the scrapers: one that raises is logged and skipped.\<close>

fun run_scrapers ::
  "scraper list \<Rightarrow> env \<Rightarrow> JobPosting list \<times> world \<Rightarrow> JobPosting list \<times> world"
where
  "run_scrapers [] orc acc = acc"
| "run_scrapers (s # ss) orc (all_jobs, w) =
     (case s orc w of
        (Inr found_jobs, w1) \<Rightarrow> run_scrapers ss orc (all_jobs @ found_jobs, w1)
      | (Inl e, w1) \<Rightarrow> run_scrapers ss orc (all_jobs, w1))"

text \<open>The \<open>try\<close> block of \<open>run_search\<close>: the exception it raises, if any.\<close>

definition run_body ::
  "scraper list \<Rightarrow> env \<Rightarrow> JobSearchOrchestrator \<times> world
     \<Rightarrow> py_exception option \<times> JobSearchOrchestrator \<times> world"
where
  "run_body scrapers orc = (\<lambda>(orch, w).
     case start_driver orc (driver_manager orch, w) of
       (Inl e, dm, w1) \<Rightarrow> (Some e, orch\<lparr>driver_manager := dm\<rparr>, w1)
     | (Inr drv, dm, w1) \<Rightarrow>
         (case connect orc (sheets_manager orch, w1) of
            (Some e, sm, w2) \<Rightarrow> (Some e, orch\<lparr>driver_manager := dm, sheets_manager := sm\<rparr>, w2)
          | (None, sm, w2) \<Rightarrow>
              let (all_jobs, w3) = run_scrapers scrapers orc ([], w2);
                  (r, sm1, w4) = save_jobs orc all_jobs (sm, w3)
              in (case r of Inl e \<Rightarrow> Some e | Inr n \<Rightarrow> None,
                  orch\<lparr>driver_manager := dm, sheets_manager := sm1\<rparr>, w4)))"

text \<open>
  \<open>run_search\<close>: the \<open>try\<close> block, the handler of \<open>except Exception\<close> (it logs the
  exception as critical and does not raise), and \<open>finally\<close>, which calls \<open>close_driver\<close>.
  The first component is the exception that leaves \<open>run_search\<close>.
\<close>

definition run_search_with ::
  "scraper list \<Rightarrow> env \<Rightarrow> JobSearchOrchestrator \<times> world
     \<Rightarrow> py_exception option \<times> JobSearchOrchestrator \<times> world"
where
  "run_search_with scrapers orc = (\<lambda>(orch, w).
     let (raised, orch1, w1) = run_body scrapers orc (orch, w);
         (escaping, w2) =
           (case raised of
              None \<Rightarrow> (None, w1)
            | Some e \<Rightarrow> (None, log_event (Ev_critical e) w1));
         (dm, w3) = close_driver (driver_manager orch1, w2)
     in (escaping, orch1\<lparr>driver_manager := dm\<rparr>, w3))"

definition run_search ::
  "env \<Rightarrow> JobSearchOrchestrator \<times> world
     \<Rightarrow> py_exception option \<times> JobSearchOrchestrator \<times> world"
where
  "run_search = run_search_with [LinkedInScraper, GlassdoorScraper, XINGScraper]"

text \<open>The events that touch the spreadsheet.\<close>

fun persistence_event :: "event \<Rightarrow> bool" where
  "persistence_event Ev_connect = True"
| "persistence_event (Ev_append_row r) = True"
| "persistence_event Ev_get_all_values = True"
| "persistence_event (Ev_append_rows rs) = True"
| "persistence_event e = False"

section \<open>Initial state and sample data\<close>

text \<open>\<open>JobSearchOrchestrator()\<close>: no driver, no worksheet, no known links.\<close>

definition new_orchestrator :: JobSearchOrchestrator where
  "new_orchestrator =
     \<lparr>driver_manager = \<lparr>driver = None\<rparr>,
      sheets_manager = \<lparr>worksheet = False, existing_links = {}\<rparr>\<rparr>"

text \<open>Sample postings, pages, worksheets and environments for the concrete runs below.\<close>

definition ex_job :: "string \<Rightarrow> string \<Rightarrow> JobPosting" where
  "ex_job t l =
     \<lparr>title = t, company = ''Klinik'', location = ''Leipzig'', languages = [''German''],
      link = l, date_posted = ''2024-05-02'', source = ''XING''\<rparr>"

definition ex_card :: "string \<Rightarrow> string \<Rightarrow> card" where
  "ex_card t l =
     \<lparr>c_title = Some t, c_company = Some ''Klinik'', c_location = Some ''Leipzig'',
      c_link = Some l\<rparr>"

definition ex_world :: "row list option \<Rightarrow> world" where
  "ex_world v = \<lparr>vagas = v, sessions = {}, launched = 0, events = []\<rparr>"

definition ex_env :: "bool \<Rightarrow> bool \<Rightarrow> bool \<Rightarrow> (string \<Rightarrow> string \<Rightarrow> card list option) \<Rightarrow> env" where
  "ex_env chrome opn wr pg =
     \<lparr>chrome_ok = chrome, open_ok = opn, read_ok = True, write_ok = wr,
      now = ''2024-05-02 08:00'', today = ''2024-05-02'', page = pg\<rparr>"

definition ex_pages :: "string \<Rightarrow> string \<Rightarrow> card list option" where
  "ex_pages src term =
     (if src = ''LinkedIn'' \<and> term = ''digital health''
      then Some [ex_card ''Werkstudent eHealth'' ''https://jobs.example/a'']
      else None)"

definition no_pages :: "string \<Rightarrow> string \<Rightarrow> card list option" where
  "no_pages src term = None"

definition fourth_term_pages :: "string \<Rightarrow> string \<Rightarrow> card list option" where
  "fourth_term_pages src term =
     (if term = ''mHealth''
      then Some [ex_card ''Werkstudent mHealth'' ''https://jobs.example/m'']
      else Some [])"

definition ex_sheet :: "row list" where
  "ex_sheet =
     [headers, [''only'', ''three'', ''cells''],
      job_row ''2024-05-01 20:00'' (ex_job ''Trainee Telemedizin'' ''https://jobs.example/b'')]"

definition same_link_batch :: "JobPosting list" where
  "same_link_batch =
     [ex_job ''Junior eHealth'' ''https://jobs.example/a'',
      ex_job ''Trainee eHealth'' ''https://jobs.example/a'']"

text \<open>
  Two runs of one orchestrator: in the first the append to the worksheet fails, the
  second finds no page.
\<close>

definition first_run :: "py_exception option \<times> JobSearchOrchestrator \<times> world" where
  "first_run =
     run_search (ex_env True True False ex_pages) (new_orchestrator, ex_world (Some ex_sheet))"

definition second_run :: "py_exception option \<times> JobSearchOrchestrator \<times> world" where
  "second_run = run_search (ex_env True True True no_pages) (snd first_run)"

section \<open>Properties of the text classifier\<close>

lemma str_in_sublist: "str_in sub s = sublist sub s"
  by (induction s) (auto simp: sublist_Cons_right)

lemma any_in_sublist: "any_in terms s = (\<exists>t \<in> set terms. sublist t s)"
  by (simp add: any_in_def list_ex_iff str_in_sublist)

lemma senior_tier_excluded:
  "any_in [''senior'', ''lead'', ''principal''] s \<Longrightarrow> any_in EXCLUDE_TERMS s"
  by (auto simp: any_in_def EXCLUDE_TERMS_def)

text \<open>
  Claim C1. A title whose lower-cased form contains a phrase of the exclusion list is
  rejected. Any other title is accepted exactly when it contains a junior phrase or no
  senior-tier phrase; in particular a title with no excluded, no junior and no
  senior-tier phrase is accepted.
\<close>

theorem is_relevant_job_policy:
  "((\<exists>p \<in> set EXCLUDE_TERMS. sublist p (lower ttl)) \<longrightarrow> \<not> is_relevant_job ttl) \<and>
   (\<not> (\<exists>p \<in> set EXCLUDE_TERMS. sublist p (lower ttl)) \<longrightarrow>
      is_relevant_job ttl =
        ((\<exists>p \<in> set EXPERIENCE_LEVELS. sublist p (lower ttl)) \<or>
         \<not> (\<exists>p \<in> set [''senior'', ''lead'', ''principal'']. sublist p (lower ttl)))) \<and>
   (\<not> (\<exists>p \<in> set EXCLUDE_TERMS. sublist p (lower ttl)) \<and>
    \<not> (\<exists>p \<in> set EXPERIENCE_LEVELS. sublist p (lower ttl)) \<and>
    \<not> (\<exists>p \<in> set [''senior'', ''lead'', ''principal'']. sublist p (lower ttl)) \<longrightarrow>
      is_relevant_job ttl)"
  unfolding any_in_sublist [symmetric] by (simp add: is_relevant_job_def Let_def)

theorem is_relevant_job_policy_witness:
  "\<not> is_relevant_job ''Senior Nurse (Junior team)'' \<and> is_relevant_job ''Junior Health Analyst''
   \<and> is_relevant_job ''Health Data Analyst''"
proof -
  have e1: "\<exists>p \<in> set EXCLUDE_TERMS. sublist p (lower ''Senior Nurse (Junior team)'')"
    unfolding any_in_sublist [symmetric] by code_simp
  have e2: "\<not> (\<exists>p \<in> set EXCLUDE_TERMS. sublist p (lower ''Junior Health Analyst''))"
    unfolding any_in_sublist [symmetric] by code_simp
  have j2: "\<exists>p \<in> set EXPERIENCE_LEVELS. sublist p (lower ''Junior Health Analyst'')"
    unfolding any_in_sublist [symmetric] by code_simp
  have e3: "\<not> (\<exists>p \<in> set EXCLUDE_TERMS. sublist p (lower ''Health Data Analyst''))"
    unfolding any_in_sublist [symmetric] by code_simp
  have j3: "\<not> (\<exists>p \<in> set EXPERIENCE_LEVELS. sublist p (lower ''Health Data Analyst''))"
    unfolding any_in_sublist [symmetric] by code_simp
  have s3: "\<not> (\<exists>p \<in> set [''senior'', ''lead'', ''principal'']. sublist p (lower ''Health Data Analyst''))"
    unfolding any_in_sublist [symmetric] by code_simp
  from is_relevant_job_policy [of "''Senior Nurse (Junior team)''"] e1
  have "\<not> is_relevant_job ''Senior Nurse (Junior team)''" by blast
  moreover from is_relevant_job_policy [of "''Junior Health Analyst''"] e2 j2
  have "is_relevant_job ''Junior Health Analyst''" by blast
  moreover from is_relevant_job_policy [of "''Health Data Analyst''"] e3 j3 s3
  have "is_relevant_job ''Health Data Analyst''" by blast
  ultimately show ?thesis by blast
qed

text \<open>
  Claim C10. The senior-tier phrases are all in the exclusion list, so the second test
  of \<open>is_relevant_job\<close> decides nothing: a title is relevant if and only if its
  lower-cased form contains no phrase of the exclusion list.
\<close>

theorem is_relevant_job_iff_not_excluded:
  "is_relevant_job ttl \<longleftrightarrow> \<not> (\<exists>p \<in> set EXCLUDE_TERMS. sublist p (lower ttl))"
  unfolding any_in_sublist [symmetric]
  using senior_tier_excluded [of "lower ttl"] by (auto simp: is_relevant_job_def Let_def)

theorem is_relevant_job_iff_not_excluded_witness:
  "is_relevant_job ''Trainee eHealth'' \<and> \<not> is_relevant_job ''Team Lead Telemedicine''"
proof -
  have e1: "\<not> (\<exists>p \<in> set EXCLUDE_TERMS. sublist p (lower ''Trainee eHealth''))"
    unfolding any_in_sublist [symmetric] by code_simp
  have e2: "\<exists>p \<in> set EXCLUDE_TERMS. sublist p (lower ''Team Lead Telemedicine'')"
    unfolding any_in_sublist [symmetric] by code_simp
  show ?thesis
    using is_relevant_job_iff_not_excluded [of "''Trainee eHealth''"]
      is_relevant_job_iff_not_excluded [of "''Team Lead Telemedicine''"] e1 e2
    by blast
qed

text \<open>
  Claim C4. \<open>extract_languages\<close> returns the tag of each group one of whose terms occurs
  in the lower-cased text, or the sentinel tag alone when none does; the two examples of
  the specification evaluate as it says, and the result is never empty.
\<close>

theorem extract_languages_tags:
  "extract_languages text =
     (let en = (sublist ''english'' (lower text) \<or> sublist ''englisch'' (lower text));
          de = (sublist ''german'' (lower text) \<or> sublist ''deutsch'' (lower text))
      in if en \<or> de
         then (if en then [''English''] else []) @ (if de then [''German''] else [])
         else [''Not specified''])
   \<and> extract_languages ''Fluent in English and Deutsch required'' = [''English'', ''German'']
   \<and> extract_languages ''no language mentioned'' = [''Not specified'']
   \<and> extract_languages text \<noteq> []"
proof -
  have a: "extract_languages text =
     (let en = (sublist ''english'' (lower text) \<or> sublist ''englisch'' (lower text));
          de = (sublist ''german'' (lower text) \<or> sublist ''deutsch'' (lower text))
      in if en \<or> de
         then (if en then [''English''] else []) @ (if de then [''German''] else [])
         else [''Not specified''])"
    by (simp add: extract_languages_def patterns_def any_in_sublist Let_def)
  have b: "extract_languages ''Fluent in English and Deutsch required'' = [''English'', ''German'']"
    by code_simp
  have c: "extract_languages ''no language mentioned'' = [''Not specified'']"
    by code_simp
  have d: "extract_languages text \<noteq> []"
    unfolding a by (simp add: Let_def)
  from a b c d show ?thesis by blast
qed

theorem extract_languages_tags_witness:
  "extract_languages ''Englisch (C1) erforderlich'' = [''English'']"
proof -
  have en: "sublist ''english'' (lower ''Englisch (C1) erforderlich'') \<or>
            sublist ''englisch'' (lower ''Englisch (C1) erforderlich'')"
    unfolding str_in_sublist [symmetric] by code_simp
  have de: "\<not> (sublist ''german'' (lower ''Englisch (C1) erforderlich'') \<or>
            sublist ''deutsch'' (lower ''Englisch (C1) erforderlich''))"
    unfolding str_in_sublist [symmetric] by code_simp
  from extract_languages_tags [of "''Englisch (C1) erforderlich''"] en de
  show ?thesis by (simp add: Let_def)
qed

section \<open>Properties of the deduplication store\<close>

lemma stage_links: "snd (stage stamp jobs (acc, K)) = K \<union> link ` set jobs"
  by (induction jobs arbitrary: acc K) auto

lemma stage_rows_acc:
  "fst (stage stamp jobs (acc, K)) = acc @ fst (stage stamp jobs ([], K))"
proof (induction jobs arbitrary: acc K)
  case Nil
  show ?case by simp
next
  case (Cons job jobs)
  show ?case
  proof (cases "link job \<in> K")
    case True
    with Cons.IH [of acc K] show ?thesis by simp
  next
    case False
    with Cons.IH [of "acc @ [job_row stamp job]" "insert (link job) K"]
      Cons.IH [of "[job_row stamp job]" "insert (link job) K"]
    show ?thesis by simp
  qed
qed

lemma stage_Cons_rows:
  "fst (stage stamp (job # jobs) ([], K)) =
     (if link job \<in> K then [] else [job_row stamp job]) @
     fst (stage stamp jobs ([], insert (link job) K))"
proof (cases "link job \<in> K")
  case True
  then show ?thesis by (simp add: insert_absorb)
next
  case False
  then show ?thesis
    using stage_rows_acc [of stamp jobs "[job_row stamp job]" "insert (link job) K"] by simp
qed

lemma stage_append:
  "stage stamp (xs @ ys) a = stage stamp ys (stage stamp xs a)"
  by (induction stamp xs a rule: stage.induct) auto

lemma stage_split_rows:
  "fst (stage stamp (pre @ job # post) ([], K)) =
     fst (stage stamp pre ([], K)) @
     (if link job \<in> K \<union> link ` set pre then [] else [job_row stamp job]) @
     fst (stage stamp post ([], insert (link job) (K \<union> link ` set pre)))"
proof -
  obtain rs K1 where s: "stage stamp pre ([], K) = (rs, K1)" by (cases "stage stamp pre ([], K)")
  have K1: "K1 = K \<union> link ` set pre" using stage_links [of stamp pre "[]" K] s by simp
  have "fst (stage stamp (pre @ job # post) ([], K)) = fst (stage stamp (job # post) (rs, K1))"
    by (simp add: stage_append s)
  also have "\<dots> = rs @ fst (stage stamp (job # post) ([], K1))"
    by (rule stage_rows_acc)
  finally show ?thesis
    unfolding stage_Cons_rows K1 using s by simp
qed

lemma index_job_row: "index (job_row stamp job) 5 = Inr (link job)"
  by (simp add: index_def job_row_def)

lemma stage_count:
  "length (filter (\<lambda>r. index r 5 = Inr l) (fst (stage stamp jobs ([], K)))) =
     (if l \<in> link ` set jobs - K then 1 else 0)"
proof (induction jobs arbitrary: K)
  case Nil
  show ?case by simp
next
  case (Cons job jobs)
  show ?case
    unfolding stage_Cons_rows using Cons.IH [of "insert (link job) K"]
    by (auto simp: index_job_row)
qed

lemma stage_known: "link ` set jobs \<subseteq> K \<Longrightarrow> stage stamp jobs (acc, K) = (acc, K)"
  by (induction jobs arbitrary: acc) auto

lemma save_jobs_links:
  "save_jobs orc jobs (mgr, w) = (r, mgr', w') \<Longrightarrow>
     existing_links mgr' = existing_links mgr \<union> link ` set jobs \<and> worksheet mgr' = worksheet mgr"
  using stage_links [of "now orc" jobs "[]" "existing_links mgr"]
  by (auto simp: save_jobs_def Let_def split: prod.splits if_splits option.splits)

lemma save_jobs_rows:
  "save_jobs orc jobs (mgr, w) = (Inr n, mgr', w') \<Longrightarrow> vagas w = Some rows \<Longrightarrow>
     vagas w' = Some (rows @ fst (stage (now orc) jobs ([], existing_links mgr))) \<and>
     n = length (fst (stage (now orc) jobs ([], existing_links mgr)))"
  by (auto simp: save_jobs_def Let_def log_event_def split: prod.splits if_splits option.splits)

text \<open>
  Claim C2, as amended. When \<open>save_jobs\<close> returns, the worksheet has gained exactly the
  staged rows, in order. A candidate is staged exactly when its link is neither in the
  set of known links at the start of the call nor the link of an earlier candidate of
  the batch, and the candidates after it are processed with its link in the set. So for
  every link the batch yields one saved row if the link occurs in the batch and was not
  known before the call, and no row otherwise.
\<close>

theorem save_jobs_dedup:
  assumes "save_jobs orc jobs (mgr, w) = (Inr n, mgr', w')" and "vagas w = Some rows"
  shows "vagas w' = Some (rows @ fst (stage (now orc) jobs ([], existing_links mgr)))
     \<and> n = length (fst (stage (now orc) jobs ([], existing_links mgr)))
     \<and> existing_links mgr' = existing_links mgr \<union> link ` set jobs
     \<and> (\<forall>l. length (filter (\<lambda>r. index r 5 = Inr l)
                (fst (stage (now orc) jobs ([], existing_links mgr)))) =
              (if l \<in> link ` set jobs - existing_links mgr then 1 else 0))
     \<and> (\<forall>pre job post. jobs = pre @ job # post \<longrightarrow>
           fst (stage (now orc) jobs ([], existing_links mgr)) =
             fst (stage (now orc) pre ([], existing_links mgr)) @
             (if link job \<in> existing_links mgr \<union> link ` set pre then []
              else [job_row (now orc) job]) @
             fst (stage (now orc) post
                    ([], insert (link job) (existing_links mgr \<union> link ` set pre))))"
  using save_jobs_rows [OF assms] save_jobs_links [OF assms(1)]
  by (simp add: stage_count stage_split_rows)


theorem save_jobs_dedup_witness:
  "vagas (snd (snd (save_jobs (ex_env True True True no_pages) same_link_batch
            (\<lparr>worksheet = True, existing_links = {}\<rparr>, ex_world (Some [headers]))))) =
     Some ([headers] @ fst (stage ''2024-05-02 08:00'' same_link_batch ([], {})))
   \<and> length (filter (\<lambda>r. index r 5 = Inr ''https://jobs.example/a'')
              (fst (stage ''2024-05-02 08:00'' same_link_batch ([], {})))) = 1"
proof -
  let ?E = "ex_env True True True no_pages"
  let ?M = "\<lparr>worksheet = True, existing_links = {}\<rparr>"
  let ?W = "ex_world (Some [headers])"
  let ?row = "job_row ''2024-05-02 08:00'' (ex_job ''Junior eHealth'' ''https://jobs.example/a'')"
  have run: "save_jobs ?E same_link_batch (?M, ?W) =
       (Inr 1, \<lparr>worksheet = True, existing_links = {''https://jobs.example/a''}\<rparr>,
        \<lparr>vagas = Some [headers, ?row], sessions = {}, launched = 0,
         events = [Ev_append_rows [?row]]\<rparr>)"
    by code_simp
  have v: "vagas ?W = Some [headers]" by (simp add: ex_world_def)
  have n: "now ?E = ''2024-05-02 08:00''" by (simp add: ex_env_def)
  have m: "''https://jobs.example/a'' \<in> link ` set same_link_batch - {}"
    by (simp add: same_link_batch_def ex_job_def)
  from save_jobs_dedup [OF run v] m show ?thesis
    unfolding run n by simp
qed

text \<open>
  A batch of two candidates with the same link saves no row when that link is already
  known.
\<close>

theorem save_jobs_known_link_counterexample:
  "length same_link_batch = 2
   \<and> link (same_link_batch ! 0) = link (same_link_batch ! 1)
   \<and> save_jobs (ex_env True True True no_pages) same_link_batch
        (\<lparr>worksheet = True, existing_links = {''https://jobs.example/a''}\<rparr>,
         ex_world (Some [headers])) =
       (Inr 0, \<lparr>worksheet = True, existing_links = {''https://jobs.example/a''}\<rparr>,
        ex_world (Some [headers]))"
  by code_simp
text \<open>
  Claim C3. After \<open>save_jobs\<close> has been called with a batch, whatever the outcome of that
  call, calling it again with the same batch stages nothing: it reports zero new
  postings, raises nothing, and changes neither the manager nor the worksheet.
\<close>

theorem save_jobs_idempotent:
  assumes "save_jobs orc1 jobs (mgr, w) = (r1, mgr1, w1)"
  shows "save_jobs orc2 jobs (mgr1, w1) = (Inr 0, mgr1, w1)"
proof -
  have "link ` set jobs \<subseteq> existing_links mgr1"
    using save_jobs_links [OF assms] by blast
  then have "stage (now orc2) jobs ([], existing_links mgr1) = ([], existing_links mgr1)"
    by (rule stage_known)
  then show ?thesis by (simp add: save_jobs_def)
qed


theorem save_jobs_idempotent_witness:
  "save_jobs (ex_env True True True no_pages) same_link_batch
     (snd (save_jobs (ex_env True True True no_pages) same_link_batch
             (\<lparr>worksheet = True, existing_links = {}\<rparr>, ex_world (Some [headers])))) =
   (Inr 0,
    snd (save_jobs (ex_env True True True no_pages) same_link_batch
           (\<lparr>worksheet = True, existing_links = {}\<rparr>, ex_world (Some [headers]))))"
proof -
  let ?first = "save_jobs (ex_env True True True no_pages) same_link_batch
                  (\<lparr>worksheet = True, existing_links = {}\<rparr>, ex_world (Some [headers]))"
  have "?first = (fst ?first, fst (snd ?first), snd (snd ?first))" by simp
  from save_jobs_idempotent [OF this, of "ex_env True True True no_pages"]
  show ?thesis by simp
qed
lemma collect_links_set:
  "collect_links i rows = Inr {row ! i |row. row \<in> set rows \<and> i < length row}"
  by (induction rows) (auto simp: index_def)






lemma stage_row_links:
  "{l. \<exists>r \<in> set (fst (stage stamp jobs ([], K))). index r 5 = Inr l} = link ` set jobs - K"
proof -
  have "(\<exists>r \<in> set (fst (stage stamp jobs ([], K))). index r 5 = Inr l) \<longleftrightarrow>
        l \<in> link ` set jobs - K" for l
  proof -
    have "(\<exists>r \<in> set (fst (stage stamp jobs ([], K))). index r 5 = Inr l) \<longleftrightarrow>
          length (filter (\<lambda>r. index r 5 = Inr l) (fst (stage stamp jobs ([], K)))) \<noteq> 0"
      by (simp add: filter_empty_conv)
    then show ?thesis unfolding stage_count by simp
  qed
  then show ?thesis by blast
qed

lemma load_links_cases:
  "load_existing_links orc (mgr, w) = (r, mgr', w') \<Longrightarrow>
     existing_links mgr' =
       (if r = None \<and> (\<exists>rows. vagas w = Some rows \<and> 1 < length rows)
        then {row ! 5 |row. row \<in> set (drop 1 (the (vagas w))) \<and> 5 < length row}
        else existing_links mgr)"
  by (auto simp: load_existing_links_def Let_def collect_links_set log_event_def
           split: if_splits option.splits)

text \<open>
  Claim C5, as amended. Every call of \<open>save_jobs\<close> leaves the set of known links a
  superset of what it was and adds exactly the links of the rows it stages. The set is
  not populated once: \<open>_load_existing_links\<close> runs at every connect, and when it reads a
  worksheet of more than one row it replaces the set by the links found there; otherwise
  it leaves the set as it is.
\<close>

theorem known_links_grow_in_save_jobs:
  "(save_jobs orc jobs (mgr, w) = (r, mgr', w') \<longrightarrow>
      existing_links mgr \<subseteq> existing_links mgr' \<and>
      existing_links mgr' - existing_links mgr =
        {l. \<exists>row \<in> set (fst (stage (now orc) jobs ([], existing_links mgr))).
              index row 5 = Inr l})
   \<and> (load_existing_links orc (mgr, w) = (r2, mgr2, w2) \<longrightarrow>
      existing_links mgr2 =
        (if r2 = None \<and> (\<exists>rows. vagas w = Some rows \<and> 1 < length rows)
         then {row ! 5 |row. row \<in> set (drop 1 (the (vagas w))) \<and> 5 < length row}
         else existing_links mgr))"
proof -
  have "existing_links mgr \<subseteq> existing_links mgr' \<and>
        existing_links mgr' - existing_links mgr =
          {l. \<exists>row \<in> set (fst (stage (now orc) jobs ([], existing_links mgr))).
                index row 5 = Inr l}"
    if "save_jobs orc jobs (mgr, w) = (r, mgr', w')"
    unfolding stage_row_links using save_jobs_links [OF that] by blast
  then show ?thesis using load_links_cases [of orc mgr w r2 mgr2 w2] by blast
qed

theorem known_links_grow_in_save_jobs_witness:
  "{''https://jobs.example/old''} \<subseteq>
     existing_links (fst (snd (save_jobs (ex_env True True True no_pages) same_link_batch
        (\<lparr>worksheet = True, existing_links = {''https://jobs.example/old''}\<rparr>,
         ex_world (Some ex_sheet)))))
   \<and> existing_links (fst (snd (load_existing_links (ex_env True True True no_pages)
        (\<lparr>worksheet = True, existing_links = {''https://jobs.example/old''}\<rparr>,
         ex_world (Some ex_sheet))))) =
      {row ! 5 |row. row \<in> set (drop 1 ex_sheet) \<and> 5 < length row}"
proof -
  let ?E = "ex_env True True True no_pages"
  let ?M = "\<lparr>worksheet = True, existing_links = {''https://jobs.example/old''}\<rparr>"
  let ?W = "ex_world (Some ex_sheet)"
  let ?s = "save_jobs ?E same_link_batch (?M, ?W)"
  let ?l = "load_existing_links ?E (?M, ?W)"
  have s: "?s = (fst ?s, fst (snd ?s), snd (snd ?s))" by simp
  have l: "?l = (fst ?l, fst (snd ?l), snd (snd ?l))" by simp
  have r: "fst ?l = None" by code_simp
  have v: "vagas ?W = Some ex_sheet" "1 < length ex_sheet"
    by (simp_all add: ex_world_def ex_sheet_def)
  from known_links_grow_in_save_jobs
         [of ?E same_link_batch ?M ?W "fst ?s" "fst (snd ?s)" "snd (snd ?s)"
             "fst ?l" "fst (snd ?l)" "snd (snd ?l)"] s l r v
  show ?thesis by simp
qed

text \<open>
  The set shrinks between two runs: the first run adds a link and fails to append the
  row, the second run reloads the set from the worksheet.
\<close>

theorem known_links_shrink_counterexample:
  "existing_links (sheets_manager (fst (snd first_run))) =
     {''https://jobs.example/a'', ''https://jobs.example/b''}
   \<and> existing_links (sheets_manager (fst (snd second_run))) = {''https://jobs.example/b''}
   \<and> \<not> existing_links (sheets_manager (fst (snd first_run)))
         \<subseteq> existing_links (sheets_manager (fst (snd second_run)))"
  by code_simp

section \<open>Properties of the scrapers\<close>

lemma scrape_cards_acc:
  "foldl (\<lambda>jobs c. case parse_card day src c of None \<Rightarrow> jobs | Some j \<Rightarrow> jobs @ [j]) jobs cs =
     jobs @ List.map_filter (parse_card day src) cs"
  by (induction cs arbitrary: jobs) (auto simp: List.map_filter_simps split: option.splits)

lemma scrape_cards_eq:
  "scrape_cards day src job_cards jobs =
     jobs @ List.map_filter (parse_card day src) (take 20 job_cards)"
  by (simp add: scrape_cards_def scrape_cards_acc)

lemma search_term_step:
  "search_term src orc (jobs, w) t =
     (jobs @ (case page orc src t of
                None \<Rightarrow> []
              | Some cs \<Rightarrow> List.map_filter (parse_card (today orc) src) (take 20 cs)),
      w\<lparr>events := events w @ [Ev_get src t]\<rparr>)"
  by (cases "page orc src t")
     (simp_all add: search_term_def Let_def log_event_def scrape_cards_eq)

lemma foldl_search_term:
  "foldl (search_term src orc) (jobs, w) ts =
     (jobs @ concat (map (\<lambda>t. case page orc src t of
                                 None \<Rightarrow> []
                               | Some cs \<Rightarrow> List.map_filter (parse_card (today orc) src) (take 20 cs)) ts),
      w\<lparr>events := events w @ map (Ev_get src) ts\<rparr>)"
proof (induction ts arbitrary: jobs w)
  case Nil
  show ?case by simp
next
  case (Cons t ts)
  show ?case by (simp add: search_term_step Cons.IH)
qed

lemma search_jobs_eq:
  "search_jobs src terms orc w =
     (Inr (concat (map (\<lambda>t. case page orc src t of
                                 None \<Rightarrow> []
                               | Some cs \<Rightarrow> List.map_filter (parse_card (today orc) src) (take 20 cs))
                       (take 3 terms))),
      w\<lparr>events := events w @ map (Ev_get src) (take 3 terms)\<rparr>)"
  by (simp add: search_jobs_def foldl_search_term)

lemma length_map_filter_le: "length (List.map_filter f xs) \<le> length xs"
  by (induction xs) (auto simp: List.map_filter_simps split: option.splits)

lemma length_concat_le:
  "(\<And>t. length (f t) \<le> k) \<Longrightarrow> length (concat (map f ts)) \<le> k * length ts"
proof (induction ts)
  case Nil
  show ?case by simp
next
  case (Cons t ts)
  have "length (f t) \<le> k" by (rule Cons.prems)
  moreover have "length (concat (map f ts)) \<le> k * length ts"
    by (rule Cons.IH) (rule Cons.prems)
  ultimately show ?case by simp
qed

lemma term_jobs_le:
  "length (case page orc src t of
             None \<Rightarrow> []
           | Some cs \<Rightarrow> List.map_filter (parse_card (today orc) src) (take 20 cs)) \<le> 20"
proof (cases "page orc src t")
  case None
  then show ?thesis by simp
next
  case (Some cs)
  have "length (List.map_filter (parse_card (today orc) src) (take 20 cs)) \<le> length (take 20 cs)"
    by (rule length_map_filter_le)
  with Some show ?thesis by simp
qed

lemma search_jobs_length:
  "search_jobs src terms orc w = (Inr jobs, w') \<Longrightarrow> length jobs \<le> 60"
proof -
  assume a: "search_jobs src terms orc w = (Inr jobs, w')"
  let ?f = "\<lambda>t. case page orc src t of
                  None \<Rightarrow> []
                | Some cs \<Rightarrow> List.map_filter (parse_card (today orc) src) (take 20 cs)"
  have "jobs = concat (map ?f (take 3 terms))"
    using a unfolding search_jobs_eq by simp
  moreover have "length (concat (map ?f (take 3 terms))) \<le> 20 * length (take 3 terms)"
    by (rule length_concat_le) (rule term_jobs_le)
  ultimately show ?thesis by simp
qed

text \<open>
  Claim C9, as amended. Every scraper requests the pages of the first three terms of the
  catalogue (of all of them when there are fewer), in order, whatever the catalogue is,
  and takes its postings from the first twenty listing elements of each page that loads:
  at most sixty postings per call. The three is a literal of each \<open>search_jobs\<close>.
\<close>

theorem search_jobs_three_terms_twenty_cards:
  "search_jobs src terms orc w =
     (Inr (concat (map (\<lambda>t. case page orc src t of
                                 None \<Rightarrow> []
                               | Some cs \<Rightarrow> List.map_filter (parse_card (today orc) src) (take 20 cs))
                       (take 3 terms))),
      w\<lparr>events := events w @ map (Ev_get src) (take 3 terms)\<rparr>)
   \<and> (\<forall>jobs w'. search_jobs src terms orc w = (Inr jobs, w') \<longrightarrow> length jobs \<le> 60)
   \<and> LinkedInScraper = search_jobs ''LinkedIn'' SEARCH_TERMS
   \<and> GlassdoorScraper = search_jobs ''Glassdoor'' SEARCH_TERMS
   \<and> XINGScraper = search_jobs ''XING'' SEARCH_TERMS
   \<and> take 3 SEARCH_TERMS = [''digital health'', ''telemedicine'', ''eHealth'']"
  using search_jobs_eq [of src terms orc w] search_jobs_length [of src terms orc w]
  by (simp add: LinkedInScraper_def GlassdoorScraper_def XINGScraper_def SEARCH_TERMS_def)


theorem search_jobs_three_terms_twenty_cards_witness:
  "search_jobs ''LinkedIn'' SEARCH_TERMS (ex_env True True True ex_pages) (ex_world None) =
     (Inr [\<lparr>title = ''Werkstudent eHealth'', company = ''Klinik'', location = ''Leipzig'',
            languages = [''Not specified''], link = ''https://jobs.example/a'',
            date_posted = ''2024-05-02'', source = ''LinkedIn''\<rparr>],
      \<lparr>vagas = None, sessions = {}, launched = 0,
       events = [Ev_get ''LinkedIn'' ''digital health'', Ev_get ''LinkedIn'' ''telemedicine'',
                 Ev_get ''LinkedIn'' ''eHealth'']\<rparr>)
   \<and> length [\<lparr>title = ''Werkstudent eHealth'', company = ''Klinik'', location = ''Leipzig'',
            languages = [''Not specified''], link = ''https://jobs.example/a'',
            date_posted = ''2024-05-02'', source = ''LinkedIn''\<rparr>] \<le> 60"
proof -
  have run: "search_jobs ''LinkedIn'' SEARCH_TERMS (ex_env True True True ex_pages) (ex_world None) =
     (Inr [\<lparr>title = ''Werkstudent eHealth'', company = ''Klinik'', location = ''Leipzig'',
            languages = [''Not specified''], link = ''https://jobs.example/a'',
            date_posted = ''2024-05-02'', source = ''LinkedIn''\<rparr>],
      \<lparr>vagas = None, sessions = {}, launched = 0,
       events = [Ev_get ''LinkedIn'' ''digital health'', Ev_get ''LinkedIn'' ''telemedicine'',
                 Ev_get ''LinkedIn'' ''eHealth'']\<rparr>)"
    by code_simp
  from search_jobs_three_terms_twenty_cards
         [of "''LinkedIn''" SEARCH_TERMS "ex_env True True True ex_pages" "ex_world None"] run
  show ?thesis by blast
qed

text \<open>
  With the catalogue of twelve terms, a posting that only the fourth term finds is never
  requested.
\<close>

theorem search_terms_fixed_at_three_counterexample:
  "length SEARCH_TERMS = 12
   \<and> SEARCH_TERMS ! 3 = ''mHealth''
   \<and> XINGScraper (ex_env True True True fourth_term_pages) (ex_world None) =
       (Inr [],
        \<lparr>vagas = None, sessions = {}, launched = 0,
         events = [Ev_get ''XING'' ''digital health'', Ev_get ''XING'' ''telemedicine'',
                   Ev_get ''XING'' ''eHealth'']\<rparr>)
   \<and> LinkedInScraper (ex_env True True True fourth_term_pages) (ex_world None) =
       (Inr [],
        \<lparr>vagas = None, sessions = {}, launched = 0,
         events = [Ev_get ''LinkedIn'' ''digital health'', Ev_get ''LinkedIn'' ''telemedicine'',
                   Ev_get ''LinkedIn'' ''eHealth'']\<rparr>)"
  by code_simp
section \<open>Properties of the orchestrator\<close>

lemma start_driver_fail:
  "\<not> chrome_ok orc \<Longrightarrow>
     start_driver orc (dm, w) = (Inl WebDriverException, dm, log_event Ev_start_driver w)"
  by (simp add: start_driver_def Let_def)

lemma start_driver_ok:
  "chrome_ok orc \<Longrightarrow>
     start_driver orc (dm, w) =
       (Inr (launched w), dm\<lparr>driver := Some (launched w)\<rparr>,
        (log_event Ev_start_driver w)\<lparr>sessions := insert (launched w) (sessions w),
                                       launched := Suc (launched w)\<rparr>)"
  by (simp add: start_driver_def Let_def log_event_def)

lemma close_driver_eq:
  "close_driver (dm, w) =
     (dm, w\<lparr>events := events w @ Ev_close_driver #
                        (case driver dm of None \<Rightarrow> [] | Some h \<Rightarrow> [Ev_quit h]),
            sessions := (case driver dm of None \<Rightarrow> sessions w | Some h \<Rightarrow> sessions w - {h})\<rparr>)"
  by (cases "driver dm") (simp_all add: close_driver_def Let_def log_event_def)

lemma run_body_fail:
  "\<not> chrome_ok orc \<Longrightarrow>
     run_body scrapers orc (orch, w) =
       (Some WebDriverException, orch, log_event Ev_start_driver w)"
  by (simp add: run_body_def start_driver_fail)

lemma run_body_driver:
  "chrome_ok orc \<Longrightarrow>
     driver (driver_manager (fst (snd (run_body scrapers orc (orch, w))))) = Some (launched w)"
  by (simp add: run_body_def start_driver_ok Let_def split: prod.splits option.splits sum.splits)

lemma run_search_with_eq:
  "run_search_with scrapers orc (orch, w) =
     (None,
      fst (snd (run_body scrapers orc (orch, w))),
      snd (close_driver
            (driver_manager (fst (snd (run_body scrapers orc (orch, w)))),
             (case fst (run_body scrapers orc (orch, w)) of
                None \<Rightarrow> snd (snd (run_body scrapers orc (orch, w)))
              | Some e \<Rightarrow> log_event (Ev_critical e) (snd (snd (run_body scrapers orc (orch, w))))))))"
  by (cases "run_body scrapers orc (orch, w)")
     (auto simp: run_search_with_def Let_def close_driver_eq split: prod.splits option.splits)

text \<open>
  Claim C7. When Chrome does not start, \<open>run_search\<close> returns without an exception; the
  events of the run are the failed start, the critical log entry and \<open>close_driver\<close>
  (which quits a driver left from an earlier run, if any); none of them touches the
  spreadsheet, and the orchestrator and the worksheet are unchanged.
\<close>

theorem driver_failure_no_persistence:
  assumes "\<not> chrome_ok orc"
  shows "fst (run_search_with scrapers orc (orch, w)) = None
     \<and> fst (snd (run_search_with scrapers orc (orch, w))) = orch
     \<and> vagas (snd (snd (run_search_with scrapers orc (orch, w)))) = vagas w
     \<and> events (snd (snd (run_search_with scrapers orc (orch, w)))) =
         events w @ [Ev_start_driver, Ev_critical WebDriverException, Ev_close_driver] @
         (case driver (driver_manager orch) of None \<Rightarrow> [] | Some h \<Rightarrow> [Ev_quit h])
     \<and> \<not> list_ex persistence_event
           (drop (length (events w)) (events (snd (snd (run_search_with scrapers orc (orch, w))))))"
  unfolding run_search_with_eq run_body_fail [OF assms]
  by (cases "driver (driver_manager orch)") (simp_all add: close_driver_eq log_event_def)


theorem driver_failure_no_persistence_witness:
  "run_search (ex_env False True True ex_pages) (new_orchestrator, ex_world (Some [headers])) =
     (None, new_orchestrator,
      \<lparr>vagas = Some [headers], sessions = {}, launched = 0,
       events = [Ev_start_driver, Ev_critical WebDriverException, Ev_close_driver]\<rparr>)"
proof -
  have h: "\<not> chrome_ok (ex_env False True True ex_pages)" by (simp add: ex_env_def)
  have s: "sessions (snd (snd (run_search (ex_env False True True ex_pages)
             (new_orchestrator, ex_world (Some [headers]))))) = {}"
    and l: "launched (snd (snd (run_search (ex_env False True True ex_pages)
             (new_orchestrator, ex_world (Some [headers]))))) = 0"
    by code_simp+
  from driver_failure_no_persistence
         [OF h, of "[LinkedInScraper, GlassdoorScraper, XINGScraper]" new_orchestrator
            "ex_world (Some [headers])"] s l
  show ?thesis
    unfolding run_search_def [symmetric]
    by (cases "run_search (ex_env False True True ex_pages)
                 (new_orchestrator, ex_world (Some [headers]))")
       (simp add: new_orchestrator_def ex_world_def)
qed
text \<open>
  Claim C8. For every environment and every list of scrapers, no exception leaves
  \<open>run_search\<close>, the run ends with the call of \<open>close_driver\<close> and the \<open>quit\<close> of the stored
  driver, that driver's session is not open afterwards, and when Chrome started in this
  run the stored driver is the one this run started.
\<close>

theorem run_search_always_closes_driver:
  "fst (run_search_with scrapers orc (orch, w)) = None
   \<and> (\<exists>evs. events (snd (snd (run_search_with scrapers orc (orch, w)))) =
             evs @ Ev_close_driver #
               (case driver (driver_manager (fst (snd (run_search_with scrapers orc (orch, w))))) of
                  None \<Rightarrow> []
                | Some h \<Rightarrow> [Ev_quit h]))
   \<and> (\<forall>h. driver (driver_manager (fst (snd (run_search_with scrapers orc (orch, w))))) = Some h
          \<longrightarrow> h \<notin> sessions (snd (snd (run_search_with scrapers orc (orch, w)))))
   \<and> (chrome_ok orc \<longrightarrow>
        driver (driver_manager (fst (snd (run_search_with scrapers orc (orch, w))))) =
          Some (launched w))"
  unfolding run_search_with_eq
  by (auto simp: close_driver_eq run_body_driver split: option.splits)


theorem run_search_always_closes_driver_witness:
  "fst (run_search (ex_env True False True ex_pages)
          (new_orchestrator, ex_world (Some [headers]))) = None
   \<and> 0 \<notin> sessions (snd (snd (run_search (ex_env True False True ex_pages)
          (new_orchestrator, ex_world (Some [headers])))))"
proof -
  have h: "chrome_ok (ex_env True False True ex_pages)" by (simp add: ex_env_def)
  have l: "launched (ex_world (Some [headers])) = 0" by (simp add: ex_world_def)
  from run_search_always_closes_driver
         [of "[LinkedInScraper, GlassdoorScraper, XINGScraper]" "ex_env True False True ex_pages"
             new_orchestrator "ex_world (Some [headers])"] h l
  show ?thesis unfolding run_search_def [symmetric] by simp
qed
end
